theory Spec2Isabelle
  imports Main "HOL-Library.Word"
begin

section \<open>Byte strings\<close>

text \<open>
  Go's \<^verbatim>\<open>[]byte\<close> is a list of 8-bit words. Where only the contents of a slice matter
  the model uses the list of its elements; a slice that may be \<^verbatim>\<open>nil\<close> is an
  \<open>option\<close>, with \<open>None\<close> for \<^verbatim>\<open>nil\<close>.
\<close>

type_synonym byte = "8 word"
type_synonym bytes = "byte list"

text \<open>\<^verbatim>\<open>bytes.Compare\<close>: lexicographic comparison, result \<open>-1\<close>, \<open>0\<close> or \<open>1\<close>.\<close>

fun bytes_Compare :: "bytes \<Rightarrow> bytes \<Rightarrow> int" where
  "bytes_Compare [] [] = 0"
| "bytes_Compare [] (y # ys) = - 1"
| "bytes_Compare (x # xs) [] = 1"
| "bytes_Compare (x # xs) (y # ys) =
     (if x < y then - 1 else if y < x then 1 else bytes_Compare xs ys)"

text \<open>The value of a byte string read as a big-endian natural number.\<close>

definition be_nat :: "bytes \<Rightarrow> nat" where
  "be_nat bs = foldl (\<lambda>a b. a * 256 + unat b) 0 bs"

section \<open>increaseKey\<close>

text \<open>
  \<^verbatim>\<open>for i := len(key) - 1; i >= 0; i-- { key[i]++; if key[i] != 0 { return key } }; return nil\<close>

  The loop counter of the model is \<open>i + 1\<close>, so that the loop ends at \<open>0\<close>. The key is
  updated in place; the result is the updated key, or \<open>None\<close> for \<^verbatim>\<open>nil\<close>.
\<close>

fun increaseKey_loop :: "nat \<Rightarrow> bytes \<Rightarrow> bytes option" where
  "increaseKey_loop 0 key = None"
| "increaseKey_loop (Suc i) key =
     (let key' = key[i := key ! i + 1]
      in if key' ! i \<noteq> 0 then Some key' else increaseKey_loop i key')"

definition increaseKey :: "bytes \<Rightarrow> bytes option" where
  "increaseKey key = increaseKey_loop (length key) key"

section \<open>The arena allocator (trie/allocator.go)\<close>

text \<open>
  \<^verbatim>\<open>const arenaPageSize = 1024\<close>; the counters of the allocator are \<^verbatim>\<open>uint64\<close>. Of the
  allocator's fields, \<^verbatim>\<open>NewBytes\<close> reads and writes \<^verbatim>\<open>usedBytes\<close> and \<^verbatim>\<open>bytes\<close>
  (the list of byte pages) only. A page handed out by \<^verbatim>\<open>bytesPagePool\<close> has
  \<open>arenaPageSize\<close> bytes; its contents play no role in the index arithmetic.
\<close>

definition arenaPageSize :: "64 word" where
  "arenaPageSize = 1024"

record ArenaNodeAllocator =
  usedBytes :: "64 word"
  bytes_pages :: "bytes list"

definition bytesPagePool_Get :: "bytes" where
  "bytesPagePool_Get = replicate (unat arenaPageSize) 0"

text \<open>The zero value \<^verbatim>\<open>&ArenaNodeAllocator{}\<close>.\<close>

definition emptyArena :: ArenaNodeAllocator where
  "emptyArena = \<lparr>usedBytes = 0, bytes_pages = []\<rparr>"

text \<open>Go's run-time panics on indexing and slicing.\<close>

datatype panic = IndexOutOfRange | SliceBoundsOutOfRange

text \<open>
  The slice returned by \<^verbatim>\<open>NewBytes\<close> aliases the memory of a page: it is described by the
  page index and the half-open interval of offsets it covers.
\<close>

record region =
  region_page :: nat
  region_lo :: nat
  region_hi :: nat

text \<open>
  \<^verbatim>\<open>NewBytes\<close>, statement by statement. \<^verbatim>\<open>uint64(requestLen)\<close> keeps the bits of the
  \<^verbatim>\<open>int\<close>, so the request is taken as a 64-bit word. In the overflow branch the source
  sets \<^verbatim>\<open>pageOffset = 0\<close> before it executes
  \<^verbatim>\<open>a.usedBytes += arenaPageSize - pageOffset\<close>; the model keeps that order.
  \<^verbatim>\<open>a.bytes[pageIndex]\<close> panics when the index is not below \<^verbatim>\<open>len(a.bytes)\<close>, and the
  slice expression panics unless \<open>low \<le> high \<le> cap\<close>.
\<close>

definition NewBytes :: "ArenaNodeAllocator \<Rightarrow> 64 word \<Rightarrow> panic + (region \<times> ArenaNodeAllocator)" where
  "NewBytes a requestLen =
     (let pageIndex = usedBytes a div arenaPageSize;
          pageOffset = usedBytes a mod arenaPageSize;
          overflows = (arenaPageSize - pageOffset < requestLen);
          (pageIndex, pageOffset, a) =
            (if pageOffset = 0 \<or> overflows then
               (let (pageIndex, pageOffset, a) =
                      (if overflows then
                         (let pageIndex = pageIndex + 1;
                              pageOffset = 0;
                              a = a\<lparr>usedBytes := usedBytes a + (arenaPageSize - pageOffset)\<rparr>
                          in (pageIndex, pageOffset, a))
                       else (pageIndex, pageOffset, a))
                in (pageIndex, pageOffset,
                    a\<lparr>bytes_pages := bytes_pages a @ [bytesPagePool_Get]\<rparr>))
             else (pageIndex, pageOffset, a));
          a = a\<lparr>usedBytes := usedBytes a + requestLen\<rparr>
      in if length (bytes_pages a) \<le> unat pageIndex then Inl IndexOutOfRange
         else if unat (pageOffset + requestLen) < unat pageOffset
                 \<or> length (bytes_pages a ! unat pageIndex) < unat (pageOffset + requestLen)
           then Inl SliceBoundsOutOfRange
         else Inr (\<lparr>region_page = unat pageIndex, region_lo = unat pageOffset,
                     region_hi = unat (pageOffset + requestLen)\<rparr>, a))"

text \<open>A sequence of \<^verbatim>\<open>NewBytes\<close> calls on one allocator; the first panic ends it.\<close>

fun NewBytes_calls ::
  "ArenaNodeAllocator \<Rightarrow> 64 word list \<Rightarrow> panic + (region list \<times> ArenaNodeAllocator)" where
  "NewBytes_calls a [] = Inr ([], a)"
| "NewBytes_calls a (n # ns) =
     (case NewBytes a n of
        Inl p \<Rightarrow> Inl p
      | Inr (r, a') \<Rightarrow>
          (case NewBytes_calls a' ns of
             Inl p \<Rightarrow> Inl p
           | Inr (rs, a'') \<Rightarrow> Inr (r # rs, a'')))"

section \<open>Slices with capacity, and splitMarker\<close>

text \<open>
  A slice expression \<^verbatim>\<open>s[:n]\<close> on a Go slice is bounded by the capacity of \<open>s\<close>, not by
  its length. Where the source slices a byte string it was handed, the slice is therefore
  modelled with its backing array: \<^verbatim>\<open>nil\<close>, or the elements of the slice followed by the
  bytes of the array between its length and its capacity.
\<close>

datatype slice = NilSlice | Slice bytes bytes

fun len :: "slice \<Rightarrow> nat" where
  "len NilSlice = 0"
| "len (Slice es sp) = length es"

fun cap :: "slice \<Rightarrow> nat" where
  "cap NilSlice = 0"
| "cap (Slice es sp) = length es + length sp"

fun contents :: "slice \<Rightarrow> bytes" where
  "contents NilSlice = []"
| "contents (Slice es sp) = es"

fun backing :: "slice \<Rightarrow> bytes" where
  "backing NilSlice = []"
| "backing (Slice es sp) = es @ sp"

text \<open>\<^verbatim>\<open>s[:n]\<close>: panics when \<open>n\<close> exceeds the capacity; \<^verbatim>\<open>nil[:0]\<close> is \<^verbatim>\<open>nil\<close>.\<close>

fun slice_to :: "slice \<Rightarrow> nat \<Rightarrow> panic + slice" where
  "slice_to NilSlice n = (if n = 0 then Inr NilSlice else Inl SliceBoundsOutOfRange)"
| "slice_to (Slice es sp) n =
     (if n \<le> length es + length sp
      then Inr (Slice (take n (es @ sp)) (drop n (es @ sp)))
      else Inl SliceBoundsOutOfRange)"

text \<open>\<^verbatim>\<open>common.HashLength\<close>, the width of a hash in bytes.\<close>

definition HashLength :: nat where
  "HashLength = 32"

text \<open>
  \<^verbatim>\<open>var accMarker []byte; if len(marker) > 0 { accMarker = marker[:common.HashLength] };
  return accMarker, marker\<close>
\<close>

definition splitMarker :: "slice \<Rightarrow> panic + (slice \<times> slice)" where
  "splitMarker marker =
     (if len marker > 0 then
        (case slice_to marker HashLength of
           Inl p \<Rightarrow> Inl p
         | Inr accMarker \<Rightarrow> Inr (accMarker, marker))
      else Inr (NilSlice, marker))"

section \<open>Errors, collaborators and the range prover\<close>

text \<open>
  The errors of the generator: the two created in \<^verbatim>\<open>generate.go\<close> with \<^verbatim>\<open>errors.New\<close>,
  the "wrong root" error carrying the two roots, the abort error carrying the reply channel,
  and errors handed up from a collaborator (trie, stack trie, batch, callback).
\<close>

datatype error =
    ErrInvalidIterationPosition
  | ErrMissingTrie
  | ErrWrongRoot bytes bytes
  | ErrAborted nat
  | ErrExternal string

text \<open>\<^verbatim>\<open>trie.ID\<close>; the prover reads its \<^verbatim>\<open>Root\<close>.\<close>

record trie_ID =
  StateRoot :: bytes
  Owner :: bytes
  Root :: bytes

text \<open>
  The trie package is a collaborator of the generator and is taken as a parameter:
  the stack trie (\<^verbatim>\<open>NewStackTrie\<close>, \<^verbatim>\<open>Update\<close>, \<^verbatim>\<open>Hash\<close>), opening a trie
  (\<^verbatim>\<open>trie.New\<close> on the generator's disk store), \<^verbatim>\<open>Prove\<close> into a proof database,
  \<^verbatim>\<open>VerifyRangeProof\<close>, the node resolver built from snapshot data, and the leaf iterator
  over a node iterator, given as the leaves it yields and the error it ends with.
\<close>

record ('st, 'tr, 'pf, 'rs) trie_api =
  NewStackTrie :: 'st
  st_Update :: "'st \<Rightarrow> bytes \<Rightarrow> bytes \<Rightarrow> error + 'st"
  st_Hash :: "'st \<Rightarrow> bytes"
  trie_New :: "trie_ID \<Rightarrow> error + 'tr"
  NewMemoryDatabase :: 'pf
  tr_Prove :: "'tr \<Rightarrow> bytes \<Rightarrow> 'pf \<Rightarrow> error + 'pf"
  VerifyRangeProof :: "bytes \<Rightarrow> bytes \<Rightarrow> bytes list \<Rightarrow> bytes list \<Rightarrow> 'pf \<Rightarrow> bool \<times> error option"
  snap_resolver :: "bytes list \<Rightarrow> bytes list \<Rightarrow> 'rs"
  tr_NodeIterator :: "'tr \<Rightarrow> bytes option \<Rightarrow> 'rs option \<Rightarrow> error + ((bytes \<times> bytes) list \<times> error option)"

text \<open>The calls made to the trie package, in order.\<close>

datatype event =
    EvStackUpdate bytes bytes
  | EvStackHash
  | EvTrieNew
  | EvProve bytes
  | EvVerifyRangeProof
  | EvNodeIterator

text \<open>\<^verbatim>\<open>proofResult\<close> with its methods \<^verbatim>\<open>valid\<close> and \<^verbatim>\<open>last\<close>.\<close>

record 'tr proofResult =
  pr_keys :: "bytes list"
  pr_vals :: "bytes list"
  pr_diskMore :: bool
  pr_trieMore :: bool
  pr_proofErr :: "error option"
  pr_tr :: "'tr option"

definition valid :: "'tr proofResult \<Rightarrow> bool" where
  "valid result = (pr_proofErr result = None)"

definition last_key :: "'tr proofResult \<Rightarrow> bytes option" where
  "last_key result =
     (if length (pr_keys result) > 0
      then Some (pr_keys result ! (length (pr_keys result) - 1)) else None)"

text \<open>
  Modelled from the spec: the holdable key-value iterator (\<^verbatim>\<open>ctx.iterator(kind)\<close>, whose
  code is not among the sources). It is the list of rows it has yet to yield, in the order
  of the store; \<^verbatim>\<open>Next\<close> takes the first row, \<^verbatim>\<open>Hold\<close> puts the row just yielded back
  so that the next \<^verbatim>\<open>Next\<close> yields it again. A key it yields is an exact-size byte
  string, so \<^verbatim>\<open>key[:len(prefix)]\<close> panics when the key is shorter than the prefix.

  The loop of \<^verbatim>\<open>proveRange\<close> over the iterator (\<open>minKey\<close> and \<open>maxLen\<close> are the
  source's \<^verbatim>\<open>min\<close> and \<^verbatim>\<open>max\<close>). It ends with a hard error, with a panic,
  or with the collected keys and values, \<open>diskMore\<close> and the iterator.
\<close>

datatype loop_result =
    LoopPanic panic
  | LoopErr error "(bytes \<times> bytes) list"
  | LoopDone "bytes list" "bytes list" bool "(bytes \<times> bytes) list"

fun proveRange_loop ::
  "(bytes \<Rightarrow> error + bytes) option \<Rightarrow> bytes \<Rightarrow> bytes \<Rightarrow> int \<Rightarrow>
   (bytes \<times> bytes) list \<Rightarrow> bytes list \<Rightarrow> bytes list \<Rightarrow> loop_result" where
  "proveRange_loop valueConvertFn prefix minKey maxLen [] keys vals = LoopDone keys vals False []"
| "proveRange_loop valueConvertFn prefix minKey maxLen ((key, value) # iter) keys vals =
     (if bytes_Compare key minKey < 0 then LoopErr ErrInvalidIterationPosition iter
      else if length key < length prefix then LoopPanic SliceBoundsOutOfRange
      else if take (length prefix) key \<noteq> prefix then
        LoopDone keys vals False ((key, value) # iter)
      else if int (length keys) = maxLen then
        LoopDone keys vals True ((key, value) # iter)
      else
        (let keys = keys @ [drop (length prefix) key];
             vals =
               (case valueConvertFn of
                  None \<Rightarrow> vals @ [value]
                | Some f \<Rightarrow>
                    (case f value of
                       Inl err \<Rightarrow> vals @ [value]
                     | Inr val \<Rightarrow> vals @ [val]))
         in proveRange_loop valueConvertFn prefix minKey maxLen iter keys vals))"

text \<open>
  \<^verbatim>\<open>for i, key := range keys { if err := stackTr.Update(key, vals[i]); err != nil
  { return nil, err } }\<close>, from index \<open>i\<close> on.
\<close>

function stack_updates ::
  "('st, 'tr, 'pf, 'rs) trie_api \<Rightarrow> bytes list \<Rightarrow> bytes list \<Rightarrow> nat \<Rightarrow> 'st \<Rightarrow> event list \<Rightarrow>
   panic + ((error + 'st) \<times> event list)" where
  "stack_updates api keys vals i stackTr evs =
     (if i < length keys then
        (if length vals \<le> i then Inl IndexOutOfRange
         else
           (case st_Update api stackTr (keys ! i) (vals ! i) of
              Inl err \<Rightarrow> Inr (Inl err, evs @ [EvStackUpdate (keys ! i) (vals ! i)])
            | Inr stackTr' \<Rightarrow>
                stack_updates api keys vals (Suc i) stackTr'
                  (evs @ [EvStackUpdate (keys ! i) (vals ! i)])))
      else Inr (Inr stackTr, evs))"
  by pat_completeness auto
termination
  by (relation "measure (\<lambda>(api, keys, vals, i, stackTr, evs). length keys - i)") auto

text \<open>
  \<^verbatim>\<open>proveRange\<close>. The result is a panic, or the pair \<^verbatim>\<open>(*proofResult, error)\<close> with the
  calls made to the trie package and the iterator as the loop left it. The two ways of
  proving, each a block of the source function, are defined first.

  The snap state is exhausted: the entire key/value set is passed to a stack trie and its
  root is compared with the expected root.
\<close>

definition prove_full_set ::
  "('st, 'tr, 'pf, 'rs) trie_api \<Rightarrow> trie_ID \<Rightarrow> bytes list \<Rightarrow> bytes list \<Rightarrow> (bytes \<times> bytes) list \<Rightarrow>
   panic + (('tr proofResult option \<times> error option) \<times> event list \<times> (bytes \<times> bytes) list)" where
  "prove_full_set api trieId keys vals iter =
     (let root = Root trieId
      in case stack_updates api keys vals 0 (NewStackTrie api) [] of
           Inl p \<Rightarrow> Inl p
         | Inr (Inl err, evs) \<Rightarrow> Inr ((None, Some err), evs, iter)
         | Inr (Inr stackTr, evs) \<Rightarrow>
             (let gotRoot = st_Hash api stackTr
              in if gotRoot \<noteq> root then
                   Inr ((Some \<lparr>pr_keys = keys, pr_vals = vals, pr_diskMore = False,
                                pr_trieMore = False,
                                pr_proofErr = Some (ErrWrongRoot gotRoot root),
                                pr_tr = None\<rparr>, None),
                        evs @ [EvStackHash], iter)
                 else
                   Inr ((Some \<lparr>pr_keys = keys, pr_vals = vals, pr_diskMore = False,
                                pr_trieMore = False, pr_proofErr = None, pr_tr = None\<rparr>, None),
                        evs @ [EvStackHash], iter)))"

text \<open>
  The snap state is chunked: the trie is opened, edge proofs are generated for the origin
  (\<^verbatim>\<open>common.Hash{}.Bytes()\<close>, that is \<open>HashLength\<close> zero bytes, when the origin is
  \<^verbatim>\<open>nil\<close>) and for the last key, and the segment is verified with the range prover.
\<close>

definition prove_chunked ::
  "('st, 'tr, 'pf, 'rs) trie_api \<Rightarrow> trie_ID \<Rightarrow> bytes option \<Rightarrow> bytes list \<Rightarrow> bytes list \<Rightarrow> bool \<Rightarrow>
   (bytes \<times> bytes) list \<Rightarrow>
   panic + (('tr proofResult option \<times> error option) \<times> event list \<times> (bytes \<times> bytes) list)" where
  "prove_chunked api trieId origin keys vals diskMore iter =
     (let root = Root trieId
      in case trie_New api trieId of
           Inl err \<Rightarrow> Inr ((None, Some ErrMissingTrie), [EvTrieNew], iter)
         | Inr t \<Rightarrow>
             (let origin = (case origin of None \<Rightarrow> replicate HashLength 0 | Some ob \<Rightarrow> ob)
              in case tr_Prove api t origin (NewMemoryDatabase api) of
                   Inl err \<Rightarrow>
                     Inr ((Some \<lparr>pr_keys = keys, pr_vals = vals, pr_diskMore = diskMore,
                                  pr_trieMore = False, pr_proofErr = Some err,
                                  pr_tr = Some t\<rparr>, None),
                          [EvTrieNew, EvProve origin], iter)
                 | Inr proof1 \<Rightarrow>
                     (case (if length keys > 0
                            then tr_Prove api t (keys ! (length keys - 1)) proof1
                            else Inr proof1) of
                        Inl err \<Rightarrow>
                          Inr ((Some \<lparr>pr_keys = keys, pr_vals = vals, pr_diskMore = diskMore,
                                       pr_trieMore = False, pr_proofErr = Some err,
                                       pr_tr = Some t\<rparr>, None),
                               [EvTrieNew, EvProve origin, EvProve (keys ! (length keys - 1))],
                               iter)
                      | Inr proof2 \<Rightarrow>
                          (case VerifyRangeProof api root origin keys vals proof2 of
                             (cont, err) \<Rightarrow>
                               Inr ((Some \<lparr>pr_keys = keys, pr_vals = vals,
                                            pr_diskMore = diskMore, pr_trieMore = cont,
                                            pr_proofErr = err, pr_tr = Some t\<rparr>, None),
                                    [EvTrieNew, EvProve origin]
                                      @ (if length keys > 0
                                         then [EvProve (keys ! (length keys - 1))] else [])
                                      @ [EvVerifyRangeProof], iter)))))"

text \<open>
  The whole function: \<^verbatim>\<open>origin == nil\<close> is \<open>origin = None\<close>, and
  \<^verbatim>\<open>append(prefix, origin...)\<close> is the prefix when the origin is \<^verbatim>\<open>nil\<close>.
\<close>

definition proveRange ::
  "('st, 'tr, 'pf, 'rs) trie_api \<Rightarrow> (bytes \<times> bytes) list \<Rightarrow> trie_ID \<Rightarrow> bytes \<Rightarrow> bytes option \<Rightarrow>
   int \<Rightarrow> (bytes \<Rightarrow> error + bytes) option \<Rightarrow>
   panic + (('tr proofResult option \<times> error option) \<times> event list \<times> (bytes \<times> bytes) list)" where
  "proveRange api iter trieId prefix origin maxLen valueConvertFn =
     (let minKey = prefix @ (case origin of None \<Rightarrow> [] | Some ob \<Rightarrow> ob)
      in case proveRange_loop valueConvertFn prefix minKey maxLen iter [] [] of
           LoopPanic p \<Rightarrow> Inl p
         | LoopErr err iter' \<Rightarrow> Inr ((None, Some err), [], iter')
         | LoopDone keys vals diskMore iter' \<Rightarrow>
             (if origin = None \<and> \<not> diskMore
              then prove_full_set api trieId keys vals iter'
              else prove_chunked api trieId origin keys vals diskMore iter'))"

section \<open>Auxiliary notions for stating the properties\<close>

text \<open>
  The value the prover records for a row, in the words of the specification: the
  transformed value, or the raw value when there is no transform or the transform fails.
\<close>

definition kept_value :: "(bytes \<Rightarrow> error + bytes) option \<Rightarrow> bytes \<Rightarrow> bytes" where
  "kept_value valueConvertFn value =
     (case valueConvertFn of
        None \<Rightarrow> value
      | Some f \<Rightarrow> (case f value of Inl err \<Rightarrow> value | Inr val \<Rightarrow> val))"

text \<open>
  A small instance of the trie collaborators, used to run the model on concrete inputs. A
  trie is the list of its leaves in key order and its root is the concatenation of the
  leaves; the stack trie refuses an empty value; proofs are trivial, and the range verifier
  accepts a segment when it is the part of the trie from the origin up to the last key.
\<close>

definition sample_root :: "(bytes \<times> bytes) list \<Rightarrow> bytes" where
  "sample_root leaves = concat (map (\<lambda>(k, v). k @ v) leaves)"

definition sample_api ::
  "(bytes \<times> bytes) list \<Rightarrow> ((bytes \<times> bytes) list, (bytes \<times> bytes) list, unit, unit) trie_api" where
  "sample_api leaves =
     \<lparr>NewStackTrie = [],
      st_Update = (\<lambda>st k v. if v = [] then Inl (ErrExternal ''trying to insert empty (deletion)'')
                             else Inr (st @ [(k, v)])),
      st_Hash = sample_root,
      trie_New = (\<lambda>trieId. if Root trieId = sample_root leaves then Inr leaves
                            else Inl (ErrExternal ''missing trie node'')),
      NewMemoryDatabase = (),
      tr_Prove = (\<lambda>t k pf. Inr ()),
      VerifyRangeProof = (\<lambda>root origin ks vs pf.
         (let from = filter (\<lambda>(k, v). bytes_Compare origin k \<le> 0) leaves;
              upto = (if ks = [] then []
                      else filter (\<lambda>(k, v). bytes_Compare k (last ks) \<le> 0) from)
          in if zip ks vs = upto then (length upto < length from, None)
             else (False, Some (ErrExternal ''invalid proof'')))),
      snap_resolver = (\<lambda>ks vs. ()),
      tr_NodeIterator = (\<lambda>t origin rs.
         Inr (filter (\<lambda>(k, v). bytes_Compare (case origin of None \<Rightarrow> [] | Some ob \<Rightarrow> ob) k \<le> 0) t,
              None))\<rparr>"

section \<open>Facts about byte strings\<close>

lemma be_nat_snoc: "be_nat (bs @ [b]) = be_nat bs * 256 + unat b"
  by (simp add: be_nat_def)

lemma byte_succ_unat: "b \<noteq> (255 :: byte) \<Longrightarrow> unat (b + 1) = unat b + 1"
proof -
  assume a: "b \<noteq> 255"
  have "unat b < 256" using unsigned_less [of b] by simp
  moreover have "unat b \<noteq> 255"
  proof
    assume "unat b = 255"
    moreover have "word_of_nat (unat b) = b" by simp
    ultimately have "b = word_of_nat 255" by metis
    with a show False by simp
  qed
  ultimately have "unat b + 1 < 256" by arith
  then show ?thesis by (simp add: unat_word_ariths)
qed

lemma byte_succ_zero: "(b :: byte) + 1 = 0 \<longleftrightarrow> b = 255"
proof
  assume "b + 1 = 0"
  then have "b = - 1" by (simp add: eq_neg_iff_add_eq_0)
  then show "b = 255" by simp
next
  assume "b = 255" then show "b + 1 = 0" by simp
qed

lemma increaseKey_loop_spec:
  "n \<le> length key \<Longrightarrow>
   (if \<forall>j<n. key ! j = 255 then increaseKey_loop n key = None
    else \<exists>r. increaseKey_loop n key = Some r \<and> length r = length key \<and>
           drop n r = drop n key \<and> be_nat (take n r) = be_nat (take n key) + 1)"
proof (induction n arbitrary: key)
  case 0
  then show ?case by simp
next
  case (Suc i)
  then have i: "i < length key" by simp
  show ?case
  proof (cases "key ! i = 255")
    case True
    let ?k = "key[i := 0]"
    have w: "(256 :: byte) = 0" by simp
    have step: "increaseKey_loop (Suc i) key = increaseKey_loop i ?k"
      using True i by (simp add: Let_def w)
    have len: "i \<le> length ?k" using i by simp
    have same: "\<forall>j<i. ?k ! j = key ! j" by simp
    have all: "(\<forall>j<Suc i. key ! j = 255) \<longleftrightarrow> (\<forall>j<i. ?k ! j = 255)"
      using True by (auto simp: less_Suc_eq)
    show ?thesis
    proof (cases "\<forall>j<i. ?k ! j = 255")
      case T2: True
      with Suc.IH [OF len] all step show ?thesis by (simp del: increaseKey_loop.simps)
    next
      case F2: False
      from Suc.IH [OF len] F2 have "\<exists>r. increaseKey_loop i ?k = Some r \<and>
        length r = length ?k \<and> drop i r = drop i ?k \<and>
        be_nat (take i r) = be_nat (take i ?k) + 1"
        by (simp only: if_False)
      then obtain r where r: "increaseKey_loop i ?k = Some r"
        "length r = length ?k" "drop i r = drop i ?k" "be_nat (take i r) = be_nat (take i ?k) + 1"
        by blast
      have ri: "r ! i = 0"
      proof -
        have "r ! i = drop i r ! 0" using r(2) i by simp
        also have "\<dots> = drop i ?k ! 0" using r(3) by simp
        also have "\<dots> = 0" using i by simp
        finally show ?thesis .
      qed
      have d: "drop (Suc i) r = drop (Suc i) key"
      proof -
        have "drop (Suc i) r = drop 1 (drop i r)" by simp
        also have "\<dots> = drop 1 (drop i ?k)" using r(3) by simp
        also have "\<dots> = drop (Suc i) key" by simp
        finally show ?thesis .
      qed
      have t1: "take (Suc i) r = take i r @ [0]"
        using ri r(2) i by (simp add: take_Suc_conv_app_nth)
      have t2: "take (Suc i) key = take i key @ [255]"
        using True i by (simp add: take_Suc_conv_app_nth)
      have t3: "take i ?k = take i key" by simp
      have "be_nat (take (Suc i) r) = be_nat (take (Suc i) key) + 1"
        using r(4) by (simp add: t1 t2 t3 be_nat_snoc)
      with r d F2 all step show ?thesis by (simp del: increaseKey_loop.simps)
    qed
  next
    case False
    let ?k = "key[i := key ! i + 1]"
    have nz: "?k ! i \<noteq> 0" using False i by (simp add: byte_succ_zero)
    have step: "increaseKey_loop (Suc i) key = Some ?k"
      using nz by (simp add: Let_def)
    have t1: "take (Suc i) ?k = take i key @ [key ! i + 1]"
      using i by (simp add: take_Suc_conv_app_nth)
    have t2: "take (Suc i) key = take i key @ [key ! i]"
      using i by (simp add: take_Suc_conv_app_nth)
    have "be_nat (take (Suc i) ?k) = be_nat (take (Suc i) key) + 1"
      using False by (simp add: t1 t2 be_nat_snoc byte_succ_unat)
    moreover have "\<not> (\<forall>j<Suc i. key ! j = 255)" using False by auto
    ultimately show ?thesis using step by (simp del: increaseKey_loop.simps)
  qed
qed


text \<open>
  Claim C7. For every byte string \<open>key\<close>, \<open>increaseKey\<close> returns \<^verbatim>\<open>nil\<close> exactly when every byte
  of \<open>key\<close> is \<open>0xFF\<close> (the empty key included); when some byte is not \<open>0xFF\<close> it returns a
  byte string of the same length whose big-endian value is that of \<open>key\<close> plus one.
\<close>

theorem increaseKey_successor:
  "(increaseKey key = None \<longleftrightarrow> (\<forall>b\<in>set key. b = 255)) \<and>
   ((\<exists>b\<in>set key. b \<noteq> 255) \<longrightarrow>
      (\<exists>r. increaseKey key = Some r \<and> length r = length key \<and> be_nat r = be_nat key + 1))"
proof -
  have eq: "(\<forall>j<length key. key ! j = 255) \<longleftrightarrow> (\<forall>b\<in>set key. b = 255)"
    by (auto simp: all_set_conv_all_nth)
  from increaseKey_loop_spec [of "length key" key]
  have *: "if \<forall>b\<in>set key. b = 255 then increaseKey key = None
        else \<exists>r. increaseKey key = Some r \<and> length r = length key \<and>
               be_nat r = be_nat key + 1"
    by (auto simp: increaseKey_def eq split: if_splits)
  show ?thesis
  proof (cases "\<forall>b\<in>set key. b = 255")
    case True
    with * show ?thesis by simp
  next
    case False
    with * show ?thesis by auto
  qed
qed

theorem increaseKey_successor_witness:
  "(increaseKey [1, 255] = None \<longleftrightarrow> (\<forall>b\<in>set [1, 255 :: byte]. b = 255)) \<and>
   (\<exists>b\<in>set [1, 255 :: byte]. b \<noteq> 255) \<and>
   (\<exists>r. increaseKey [1, 255] = Some r \<and> length r = length [1, 255 :: byte] \<and>
      be_nat r = be_nat [1, 255] + 1) \<and>
   increaseKey [1, 255] = Some [2, 0] \<and> increaseKey [255, 255] = None \<and>
   increaseKey [] = None"
proof -
  have h: "\<exists>b\<in>set [1, 255 :: byte]. b \<noteq> 255" by simp
  have c: "increaseKey [1, 255] = Some [2, 0] \<and> increaseKey [255, 255] = None \<and>
    increaseKey [] = None"
    by code_simp
  from increaseKey_successor [of "[1, 255]"] h c show ?thesis by blast
qed

section \<open>The arena allocator\<close>

text \<open>
  Claim C10 says that in a sequence of \<^verbatim>\<open>NewBytes\<close> calls with requests of at most
  \<open>arenaPageSize\<close> bytes every call indexes a page that has been appended. The code does
  not keep this: a request that does not fit into the rest of the page advances
  \<open>usedBytes\<close> by a whole page (the offset has been zeroed before the subtraction), where
  the comment says "use up rest of the last page". After the requests \<open>1000\<close> and \<open>100\<close>
  two pages exist and \<open>usedBytes = 2124\<close>, so the request \<open>10\<close> indexes page \<open>2\<close>
  without appending one: the run-time panic "index out of range".
\<close>

theorem NewBytes_page_index_out_of_range:
  "NewBytes_calls emptyArena [1000, 100] =
     Inr ([\<lparr>region_page = 0, region_lo = 0, region_hi = 1000\<rparr>,
           \<lparr>region_page = 1, region_lo = 0, region_hi = 100\<rparr>],
          \<lparr>usedBytes = 2124, bytes_pages = [bytesPagePool_Get, bytesPagePool_Get]\<rparr>) \<and>
   NewBytes_calls emptyArena [1000, 100, 10] = Inl IndexOutOfRange"
  by (simp add: NewBytes_def emptyArena_def arenaPageSize_def bytesPagePool_Get_def Let_def)

section \<open>splitMarker\<close>

text \<open>
  Claim C9 states that for every marker whose length lies strictly between 1 and 31 the
  slice expression \<^verbatim>\<open>marker[:32]\<close> is out of bounds. Go checks the upper bound of a slice
  expression against the capacity: a marker of two bytes on a backing array of 32 bytes is
  sliced without a panic, and \<open>splitMarker\<close> returns the 32 bytes of the array.
\<close>

theorem splitMarker_short_marker_in_bounds:
  "len (Slice [1, 2] (replicate 30 0)) = 2 \<and>
   splitMarker (Slice [1, 2] (replicate 30 0)) =
     Inr (Slice ([1, 2] @ replicate 30 0) [], Slice [1, 2] (replicate 30 0))"
  by (simp add: splitMarker_def HashLength_def)

text \<open>
  Claim C9, amended. \<open>splitMarker\<close> returns \<open>(nil, marker)\<close> for a marker of length 0. For
  a non-empty marker it panics exactly when the capacity of the marker is below the hash
  width, and otherwise returns the first 32 bytes of the backing array together with the
  whole marker; for a marker of length at least 32 these are the first 32 bytes of the
  marker itself. A marker of length 1 to 31 whose capacity equals its length reaches the
  panic.
\<close>

theorem splitMarker_total_iff:
  "(len m = 0 \<longrightarrow> splitMarker m = Inr (NilSlice, m)) \<and>
   (0 < len m \<and> cap m < HashLength \<longrightarrow> splitMarker m = Inl SliceBoundsOutOfRange) \<and>
   (0 < len m \<and> HashLength \<le> cap m \<longrightarrow>
      splitMarker m =
        Inr (Slice (take HashLength (backing m)) (drop HashLength (backing m)), m)) \<and>
   (HashLength \<le> len m \<longrightarrow>
      (\<exists>a. splitMarker m = Inr (a, m) \<and> contents a = take HashLength (contents m))) \<and>
   ((\<exists>p. splitMarker m = Inl p) \<longleftrightarrow> 0 < len m \<and> cap m < HashLength)"
  by (cases m) (auto simp: splitMarker_def HashLength_def)

theorem splitMarker_total_iff_witness:
  "len (Slice [] []) = 0 \<and> splitMarker (Slice [] []) = Inr (NilSlice, Slice [] []) \<and>
   0 < len (Slice [7, 8, 9] []) \<and> cap (Slice [7, 8, 9] []) < HashLength \<and>
   splitMarker (Slice [7, 8, 9] []) = Inl SliceBoundsOutOfRange \<and>
   HashLength \<le> len (Slice (replicate 32 5 @ [6]) []) \<and>
   (\<exists>a. splitMarker (Slice (replicate 32 5 @ [6]) []) = Inr (a, Slice (replicate 32 5 @ [6]) [])
      \<and> contents a = replicate 32 5)"
proof -
  have a: "len (Slice [] []) = 0" by simp
  have b: "0 < len (Slice [7, 8, 9] []) \<and> cap (Slice [7, 8, 9] []) < HashLength"
    by (simp add: HashLength_def)
  have c: "HashLength \<le> len (Slice (replicate 32 5 @ [6]) [])"
    by (simp add: HashLength_def)
  have d: "take HashLength (contents (Slice (replicate 32 5 @ [6 :: byte]) [])) = replicate 32 5"
    by (simp add: HashLength_def)
  from splitMarker_total_iff [of "Slice [] []"] a
  have 1: "splitMarker (Slice [] []) = Inr (NilSlice, Slice [] [])" by blast
  from splitMarker_total_iff [of "Slice [7, 8, 9] []"] b
  have 2: "splitMarker (Slice [7, 8, 9] []) = Inl SliceBoundsOutOfRange" by blast
  from splitMarker_total_iff [of "Slice (replicate 32 5 @ [6]) []"] c
  have 3: "\<exists>a. splitMarker (Slice (replicate 32 5 @ [6]) []) = Inr (a, Slice (replicate 32 5 @ [6]) [])
      \<and> contents a = take HashLength (contents (Slice (replicate 32 5 @ [6]) []))" by blast
  from a b c 1 2 3 show ?thesis unfolding d by blast
qed

end
